theory Spec2Isabelle
  imports Main "HOL-Library.Sublist"
begin

section \<open>JavaScript values used by the sources\<close>

text \<open>
  Strings are lists of characters. The backslash is written \<open>CHR 0x5C\<close>.
  Exceptions are values: an operation that can throw returns \<open>js_error + 'a\<close>,
  with \<open>Inl\<close> for the exception.
\<close>

datatype js_error = SyntaxError | TypeError | UriError | FileSystemError

definition backslash :: char where
  "backslash = CHR 0x5C"

subsection \<open>Regular expressions\<close>

text \<open>
  The sources build and use regular expressions in two places of \<open>fileUtil\<close>:
  the literal \<^verbatim>\<open>/\.cfc$/gi\<close> in \<open>filterComponents\<close>, and
  \<^verbatim>\<open>new RegExp(`^${slicedLogicalPath}(?:\/|$)`)\<close> in
  \<open>resolveCustomMappingPaths\<close>, whose source text contains a configured string.
  The pattern language is modelled for the constructs these two patterns are made of:
  pattern characters, \<open>.\<close>, the assertions \<open>^\<close> and \<open>$\<close>, the escape of a syntax
  character, groups (capturing or not: \<open>test\<close> does not tell them apart) and
  alternation. A pattern that uses anything else (quantifiers, classes, other escapes,
  look-around) is outside the model: its outcome is the host's, taken as a parameter.
\<close>

datatype rx =
    RChar char
  | RAny
  | RBol
  | REol
  | RGroup "rx list list"

datatype rx_parse = Parsed "rx list list" | Rejected | Outside

text \<open>The syntax characters of the ECMAScript pattern grammar.\<close>

definition syntax_char :: "char \<Rightarrow> bool" where
  "syntax_char c = (c \<in> set ''^$.*+?()[]{}|'' \<or> c = backslash)"

text \<open>
  The parser reads the pattern from left to right and keeps one frame per open group:
  the alternatives already closed by \<open>|\<close> and the alternative being read.
  \<open>Rejected\<close> is the \<open>SyntaxError\<close> of the \<open>RegExp\<close> constructor: a \<open>)\<close>
  without its \<open>(\<close>, a group left open at the end, a backslash at the end.
\<close>

type_synonym rx_frame = "rx list list \<times> rx list"

definition rx_push :: "rx \<Rightarrow> rx_frame list \<Rightarrow> rx_frame list" where
  "rx_push r st = (case st of [] \<Rightarrow> [] | (alts, cur) # fs \<Rightarrow> (alts, cur @ [r]) # fs)"

fun rx_parse_from :: "rx_frame list \<Rightarrow> string \<Rightarrow> rx_parse" where
  "rx_parse_from st [] =
     (case st of [(alts, cur)] \<Rightarrow> Parsed (alts @ [cur]) | _ \<Rightarrow> Rejected)"
| "rx_parse_from st (c # cs) =
     (if c = backslash then
        (case cs of
           [] \<Rightarrow> Rejected
         | d # ds \<Rightarrow>
             if syntax_char d \<or> d = CHR ''/'' then rx_parse_from (rx_push (RChar d) st) ds
             else Outside)
      else if c = CHR ''('' then
        (case cs of
           [] \<Rightarrow> Rejected
         | d # ds \<Rightarrow>
             if d = CHR ''?'' then
               (case ds of
                  [] \<Rightarrow> Outside
                | e # es \<Rightarrow> if e = CHR '':'' then rx_parse_from (([], []) # st) es else Outside)
             else rx_parse_from (([], []) # st) cs)
      else if c = CHR '')'' then
        (case st of
           (alts, cur) # f # fs \<Rightarrow> rx_parse_from (rx_push (RGroup (alts @ [cur])) (f # fs)) cs
         | _ \<Rightarrow> Rejected)
      else if c = CHR ''|'' then
        (case st of
           (alts, cur) # fs \<Rightarrow> rx_parse_from ((alts @ [cur], []) # fs) cs
         | [] \<Rightarrow> Rejected)
      else if c = CHR ''^'' then rx_parse_from (rx_push RBol st) cs
      else if c = CHR ''$'' then rx_parse_from (rx_push REol st) cs
      else if c = CHR ''.'' then rx_parse_from (rx_push RAny st) cs
      else if syntax_char c then Outside
      else rx_parse_from (rx_push (RChar c) st) cs)"

definition rx_compile :: "string \<Rightarrow> rx_parse" where
  "rx_compile src = rx_parse_from [([], [])] src"

text \<open>
  Matching. \<open>canonicalize\<close> is the case folding of the \<open>i\<close> flag on the letters a to z;
  \<open>line_terminator\<close> are the characters \<open>.\<close> does not match (line feed and carriage
  return, among the characters of one byte). There is no quantifier in the modelled
  language, so a match exists exactly when some choice of alternatives matches: the
  matcher returns the positions at which a match that starts at position \<open>i\<close> can end.
\<close>

definition canonicalize :: "bool \<Rightarrow> char \<Rightarrow> char" where
  "canonicalize ignoreCase c =
     (if ignoreCase \<and> 97 \<le> (of_char c :: nat) \<and> (of_char c :: nat) \<le> 122
      then char_of ((of_char c :: nat) - 32) else c)"

definition line_terminator :: "char \<Rightarrow> bool" where
  "line_terminator c = (c = CHR 0x0A \<or> c = CHR 0x0D)"

fun rx_item :: "bool \<Rightarrow> string \<Rightarrow> rx \<Rightarrow> nat \<Rightarrow> nat list"
  and rx_seq :: "bool \<Rightarrow> string \<Rightarrow> rx list \<Rightarrow> nat list \<Rightarrow> nat list"
  and rx_alts :: "bool \<Rightarrow> string \<Rightarrow> rx list list \<Rightarrow> nat \<Rightarrow> nat list" where
  "rx_item ic s (RChar c) i =
     (if i < length s \<and> canonicalize ic (s ! i) = canonicalize ic c then [Suc i] else [])"
| "rx_item ic s RAny i =
     (if i < length s \<and> \<not> line_terminator (s ! i) then [Suc i] else [])"
| "rx_item ic s RBol i = (if i = 0 then [i] else [])"
| "rx_item ic s REol i = (if i = length s then [i] else [])"
| "rx_item ic s (RGroup alts) i = rx_alts ic s alts i"
| "rx_seq ic s [] is = is"
| "rx_seq ic s (r # rs) is = rx_seq ic s rs (concat (map (rx_item ic s r) is))"
| "rx_alts ic s [] i = []"
| "rx_alts ic s (a # as) i = rx_seq ic s a [i] @ rx_alts ic s as i"

text \<open>
  \<open>RegExp.prototype.test\<close> on a fresh expression: the match may start at any
  position of the input, from 0 to its length.
\<close>

definition rx_test :: "bool \<Rightarrow> rx list list \<Rightarrow> string \<Rightarrow> bool" where
  "rx_test ic r s = list_ex (\<lambda>i. rx_alts ic s r i \<noteq> []) [0..<Suc (length s)]"

section \<open>The host: the editor's interfaces\<close>

text \<open>
  \<open>Uri\<close>, \<open>workspace.fs\<close>, \<open>workspace.getWorkspaceFolder\<close> and
  \<open>workspace.getConfiguration\<close> belong to the editor, not to this repository. They are
  the fields of a record that every function of the model takes as its first argument.
  A \<open>Uri\<close> has the five components of the editor's class. \<open>FileType\<close> is the editor's
  numeric enumeration; a symbolic link carries the flag 64 added to 1 or 2.
\<close>

record uri =
  scheme :: string
  authority :: string
  path :: string
  query :: string
  fragment :: string

type_synonym FileType = nat

definition FileType_Unknown :: FileType where "FileType_Unknown = 0"
definition FileType_File :: FileType where "FileType_File = 1"
definition FileType_Directory :: FileType where "FileType_Directory = 2"
definition FileType_SymbolicLink :: FileType where "FileType_SymbolicLink = 64"

record CFMLMapping =
  logicalPath :: string
  directoryPath :: string
  isPhysicalDirectoryPath :: "bool option"

text \<open>
  The result of one \<open>pattern.exec(text)\<close>: \<open>match.index\<close>, \<open>match[0]\<close>, and the
  capture groups \<open>match[1]\<close>, \<open>match[2]\<close>, ... (\<open>None\<close> for a group that did not
  take part in the match).
\<close>

record RegExpExecArray =
  index :: nat
  match0 :: string
  captures :: "string option list"

text \<open>
  \<open>uri_parse\<close> takes a \<open>string option\<close>: the sources can pass it the value
  \<open>undefined\<close>, which is \<open>None\<close>. \<open>regexp_other\<close> is the outcome of
  \<open>new RegExp(source).test(input)\<close> for a source outside the modelled pattern language.
  \<open>regexp_exec_all\<close> gives, for the source of a global pattern and a text, the results
  of the successive calls of \<open>exec\<close> until it returns \<open>null\<close>.
  \<open>isUri\<close> is the helper of \<open>utils/textUtil\<close> that \<open>resolveLink\<close> calls.
\<close>

record host =
  uri_parse :: "string option \<Rightarrow> js_error + uri"
  uri_file :: "string \<Rightarrow> js_error + uri"
  uri_joinPath :: "uri \<Rightarrow> string \<Rightarrow> js_error + uri"
  uri_fsPath :: "uri \<Rightarrow> string"
  fs_stat :: "uri \<Rightarrow> js_error + FileType"
  getWorkspaceFolder :: "uri \<Rightarrow> uri option"
  getMappings :: "uri \<Rightarrow> CFMLMapping list"
  regexp_other :: "string \<Rightarrow> string \<Rightarrow> js_error + bool"
  regexp_exec_all :: "string \<Rightarrow> string \<Rightarrow> RegExpExecArray list"
  isUri :: "string \<Rightarrow> js_error + bool"

text \<open>
  Every call of the host that reads the file system, the workspace or the configuration
  is recorded, in order. A computation returns the calls it made and its outcome.
\<close>

datatype event = Stat uri | RootLookup uri | ConfigRead uri

type_synonym 'a io = "event list \<times> (js_error + 'a)"

definition ret :: "'a \<Rightarrow> 'a io" where
  "ret x = ([], Inr x)"

definition raise :: "js_error \<Rightarrow> 'a io" where
  "raise e = ([], Inl e)"

definition lift :: "js_error + 'a \<Rightarrow> 'a io" where
  "lift r = ([], r)"

definition bind_io :: "'a io \<Rightarrow> ('a \<Rightarrow> 'b io) \<Rightarrow> 'b io" where
  "bind_io m f =
     (case snd m of
        Inl e \<Rightarrow> (fst m, Inl e)
      | Inr x \<Rightarrow> (fst m @ fst (f x), snd (f x)))"

definition js_regexp_test :: "host \<Rightarrow> string \<Rightarrow> string \<Rightarrow> js_error + bool" where
  "js_regexp_test h src input =
     (case rx_compile src of
        Parsed r \<Rightarrow> Inr (rx_test False r input)
      | Rejected \<Rightarrow> Inl SyntaxError
      | Outside \<Rightarrow> regexp_other h src input)"

section \<open>fileUtil\<close>

subsection \<open>filterDirectories and filterComponents\<close>

definition filterDirectories :: "(string \<times> FileType) list \<Rightarrow> (string \<times> FileType) list" where
  "filterDirectories files =
     filter (\<lambda>file. if snd file = FileType_Directory then True else False) files"

text \<open>The literal \<^verbatim>\<open>/\.cfc$/gi\<close>, as the parser reads its source.\<close>

definition cfc_pattern :: "rx list list" where
  "cfc_pattern = [[RChar CHR ''.'', RChar CHR ''c'', RChar CHR ''f'', RChar CHR ''c'', REol]]"

definition filterComponents :: "(string \<times> FileType) list \<Rightarrow> (string \<times> FileType) list" where
  "filterComponents files =
     filter (\<lambda>file. if snd file = FileType_File \<and> rx_test True cfc_pattern (fst file)
                     then True else False) files"

subsection \<open>fileExists\<close>

text \<open>
  \<open>Uri.file\<close> and \<open>workspace.fs.stat\<close> are both inside the \<open>try\<close> block: whatever
  either of them throws, the \<open>catch\<close> returns \<open>false\<close>.
\<close>

definition fileExists :: "host \<Rightarrow> string \<Rightarrow> bool io" where
  "fileExists h p =
     (case uri_file h p of
        Inl e \<Rightarrow> ([], Inr False)
      | Inr u \<Rightarrow>
          (case fs_stat h u of
             Inl e \<Rightarrow> ([Stat u], Inr False)
           | Inr t \<Rightarrow> ([Stat u], Inr True)))"

subsection \<open>resolveRelativePath, resolveRootPath, resolveCustomMappingPaths\<close>

text \<open>
  The two replacements: \<^verbatim>\<open>dotPath.replace(/\./g, '/')\<close> in \<open>resolveDottedPaths\<close> and
  \<^verbatim>\<open>appendingPath.replace(/\\/g, "/")\<close> in \<open>resolveCustomMappingPaths\<close>.
\<close>

definition dots_to_slashes :: "string \<Rightarrow> string" where
  "dots_to_slashes dotPath = map (\<lambda>c. if c = CHR ''.'' then CHR ''/'' else c) dotPath"

definition backslashes_to_slashes :: "string \<Rightarrow> string" where
  "backslashes_to_slashes p = map (\<lambda>c. if c = backslash then CHR ''/'' else c) p"

definition resolveRelativePath :: "host \<Rightarrow> uri \<Rightarrow> string \<Rightarrow> string io" where
  "resolveRelativePath h baseUri appendingPath =
     bind_io (lift (uri_joinPath h baseUri appendingPath)) (\<lambda>u. ret (uri_fsPath h u))"

text \<open>The result \<open>None\<close> is the value \<open>undefined\<close>.\<close>

definition resolveRootPath :: "host \<Rightarrow> uri \<Rightarrow> string \<Rightarrow> string option io" where
  "resolveRootPath h baseUri appendingPath =
     bind_io ([RootLookup baseUri], Inr (getWorkspaceFolder h baseUri)) (\<lambda>root.
       case root of
         None \<Rightarrow> ret None
       | Some rootUri \<Rightarrow>
           bind_io (lift (uri_joinPath h rootUri appendingPath)) (\<lambda>u.
             ret (Some (uri_fsPath h u))))"

text \<open>
  In the template literal \<^verbatim>\<open>`^${slicedLogicalPath}(?:\/|$)`\<close> the escape
  \<^verbatim>\<open>\/\<close> is the character \<open>/\<close>: the source text given to \<open>RegExp\<close> is
  \<open>^\<close>, the sliced logical path, and \<open>(?:/|$)\<close>.
\<close>

definition slicedLogicalPath :: "CFMLMapping \<Rightarrow> string" where
  "slicedLogicalPath m = drop 1 (logicalPath m)"

definition logicalPathStartPattern :: "CFMLMapping \<Rightarrow> string" where
  "logicalPathStartPattern m = ''^'' @ slicedLogicalPath m @ ''(?:/|$)''"

definition mapping_test :: "host \<Rightarrow> CFMLMapping \<Rightarrow> string \<Rightarrow> js_error + bool" where
  "mapping_test h m normalizedPath =
     js_regexp_test h (logicalPathStartPattern m) normalizedPath"

text \<open>Lines 143 to 144: the directory the mapping stands for, and the mapped path.\<close>

definition mapping_directoryPath :: "host \<Rightarrow> uri \<Rightarrow> CFMLMapping \<Rightarrow> string option io" where
  "mapping_directoryPath h baseUri m =
     (if isPhysicalDirectoryPath m = None \<or> isPhysicalDirectoryPath m = Some True
      then ret (Some (directoryPath m))
      else resolveRootPath h baseUri (directoryPath m))"

definition mapping_mappedPath :: "host \<Rightarrow> uri \<Rightarrow> CFMLMapping \<Rightarrow> string \<Rightarrow> string io" where
  "mapping_mappedPath h baseUri m appendingPath =
     bind_io (mapping_directoryPath h baseUri m) (\<lambda>dir.
     bind_io (lift (uri_parse h dir)) (\<lambda>u.
     bind_io (lift (uri_joinPath h u (drop (length (slicedLogicalPath m)) appendingPath))) (\<lambda>v.
       ret (uri_fsPath h v))))"

fun mappings_loop ::
  "host \<Rightarrow> uri \<Rightarrow> string \<Rightarrow> string \<Rightarrow> CFMLMapping list \<Rightarrow> string list \<Rightarrow> string list io" where
  "mappings_loop h baseUri appendingPath normalizedPath [] customMappingPaths =
     ret customMappingPaths"
| "mappings_loop h baseUri appendingPath normalizedPath (m # ms) customMappingPaths =
     (case mapping_test h m normalizedPath of
        Inl e \<Rightarrow> raise e
      | Inr matched \<Rightarrow>
          if matched then
            (case snd (mapping_mappedPath h baseUri m appendingPath) of
               Inl e \<Rightarrow> (fst (mapping_mappedPath h baseUri m appendingPath), Inl e)
             | Inr p \<Rightarrow>
                 (fst (mapping_mappedPath h baseUri m appendingPath)
                    @ fst (mappings_loop h baseUri appendingPath normalizedPath ms
                             (customMappingPaths @ [p])),
                  snd (mappings_loop h baseUri appendingPath normalizedPath ms
                         (customMappingPaths @ [p]))))
          else mappings_loop h baseUri appendingPath normalizedPath ms customMappingPaths)"

definition resolveCustomMappingPaths :: "host \<Rightarrow> uri \<Rightarrow> string \<Rightarrow> string list io" where
  "resolveCustomMappingPaths h baseUri appendingPath =
     bind_io ([ConfigRead baseUri], Inr (getMappings h baseUri)) (\<lambda>cfmlMappings.
       mappings_loop h baseUri appendingPath (backslashes_to_slashes appendingPath)
         cfmlMappings [])"

subsection \<open>resolveDottedPaths\<close>

fun mapped_loop :: "host \<Rightarrow> string \<Rightarrow> string list \<Rightarrow> string list \<Rightarrow> string list io" where
  "mapped_loop h normalizedPath [] paths = ret paths"
| "mapped_loop h normalizedPath (mappedPath # rest) paths =
     (case snd (fileExists h mappedPath) of
        Inl e \<Rightarrow> (fst (fileExists h mappedPath), Inl e)
      | Inr found \<Rightarrow>
          if found then
            (if length normalizedPath > 0
             then (fst (fileExists h mappedPath), Inr (paths @ [mappedPath]))
             else (fst (fileExists h mappedPath)
                     @ fst (mapped_loop h normalizedPath rest (paths @ [mappedPath])),
                   snd (mapped_loop h normalizedPath rest (paths @ [mappedPath]))))
          else (fst (fileExists h mappedPath) @ fst (mapped_loop h normalizedPath rest paths),
                snd (mapped_loop h normalizedPath rest paths)))"

text \<open>
  \<open>rootPath && await fileExists(rootPath)\<close>: \<open>undefined\<close> and the empty string are
  both false, and then \<open>fileExists\<close> is not called.
\<close>

definition root_exists :: "host \<Rightarrow> string option \<Rightarrow> bool io" where
  "root_exists h rootPath =
     (case rootPath of
        None \<Rightarrow> ret False
      | Some rp \<Rightarrow> if rp = [] then ret False else fileExists h rp)"

definition resolveDottedPaths :: "host \<Rightarrow> string \<Rightarrow> uri \<Rightarrow> string list io" where
  "resolveDottedPaths h dotPath baseUri =
     (let normalizedPath = dots_to_slashes dotPath in
      bind_io (resolveRelativePath h baseUri normalizedPath) (\<lambda>localPath.
      bind_io (fileExists h localPath) (\<lambda>localFound.
        let paths1 = (if localFound then [localPath] else []) in
        if localFound \<and> length normalizedPath > 0 then ret paths1
        else
          bind_io (resolveRootPath h baseUri normalizedPath) (\<lambda>rootPath.
          bind_io (root_exists h rootPath) (\<lambda>rootFound.
            let paths2 = (if rootFound then paths1 @ [the rootPath] else paths1) in
            if rootFound \<and> length normalizedPath > 0 then ret paths2
            else
              bind_io (resolveCustomMappingPaths h baseUri normalizedPath) (\<lambda>customMappingPaths.
                mapped_loop h normalizedPath customMappingPaths paths2))))))"

section \<open>documentLinkProvider\<close>

record TextDocument =
  doc_uri :: uri
  fileName :: string
  getText :: string

text \<open>
  A \<open>Position\<close> is kept as the offset it stands for: \<open>positionAt\<close> clamps its
  argument to the text. A \<open>DocumentLink\<close> is its range and its target.
\<close>

record DocumentLink =
  range_start :: nat
  range_end :: nat
  target :: uri

record LinkPattern =
  pattern :: string
  linkIndex :: nat

definition quote_chars :: string where
  "quote_chars = [CHR 0x27, CHR 0x22]"

definition linkPatterns :: "LinkPattern list" where
  "linkPatterns =
     [\<lparr>pattern = [backslash] @ ''b(href|src|template|action|url)'' @ [backslash] @ ''s*(?:=|:|''
                   @ [backslash] @ ''()'' @ [backslash] @ ''s*(['' @ quote_chars @ ''])([^''
                   @ quote_chars @ '']+?)'' @ [backslash] @ ''2'',
       linkIndex = 3\<rparr>,
      \<lparr>pattern = [backslash] @ ''binclude'' @ [backslash] @ ''s+(['' @ quote_chars @ ''])([^''
                   @ quote_chars @ '']+?)'' @ [backslash] @ ''1'',
       linkIndex = 2\<rparr>]"

definition positionAt :: "TextDocument \<Rightarrow> int \<Rightarrow> nat" where
  "positionAt document offset = nat (max 0 (min offset (int (length (getText document)))))"

text \<open>\<open>match[k]\<close>, and \<open>String.prototype.indexOf\<close> (\<open>-1\<close> when there is no occurrence).\<close>

definition match_group :: "RegExpExecArray \<Rightarrow> nat \<Rightarrow> string option" where
  "match_group m k =
     (if k = 0 then Some (match0 m)
      else if k - 1 < length (captures m) then captures m ! (k - 1) else None)"

definition indexOf :: "string \<Rightarrow> string \<Rightarrow> int" where
  "indexOf s sub =
     (case List.find (\<lambda>i. take (length sub) (drop i s) = sub) [0..<Suc (length s)] of
        None \<Rightarrow> - 1
      | Some i \<Rightarrow> int i)"

subsection \<open>resolveLink\<close>

definition resolveLink :: "host \<Rightarrow> TextDocument \<Rightarrow> string \<Rightarrow> uri option io" where
  "resolveLink h document link =
     (if prefix ''#'' link then ret None
      else
        bind_io (lift (isUri h link)) (\<lambda>is_uri.
          case (if is_uri
                then (case uri_parse h (Some link) of
                        Inr u \<Rightarrow> if scheme u \<noteq> [] then Some u else None
                      | Inl e \<Rightarrow> None)
                else None) of
            Some u \<Rightarrow> ret (Some u)
          | None \<Rightarrow>
              (let linkPath = takeWhile (\<lambda>c. c \<noteq> CHR ''?'' \<and> c \<noteq> CHR ''#'') link in
               bind_io
                 (if linkPath \<noteq> [] \<and> hd linkPath = CHR ''/'' then
                    bind_io ([RootLookup (doc_uri document)],
                             Inr (getWorkspaceFolder h (doc_uri document))) (\<lambda>root.
                      case root of
                        None \<Rightarrow> ret None
                      | Some rootUri \<Rightarrow>
                          bind_io (lift (uri_joinPath h rootUri linkPath)) (\<lambda>u. ret (Some u)))
                  else
                    bind_io (lift (uri_parse h (Some (fileName document)))) (\<lambda>base.
                    bind_io (lift (uri_joinPath h base linkPath)) (\<lambda>u. ret (Some u))))
                 (\<lambda>resourcePath.
                    case resourcePath of
                      None \<Rightarrow> ret None
                    | Some rp \<Rightarrow>
                        bind_io (fileExists h (uri_fsPath h rp)) (\<lambda>found.
                          if found then
                            bind_io ([Stat rp], fs_stat h rp) (\<lambda>t.
                              if t = FileType_File then ret (Some rp) else ret None)
                          else ret None)))))"

subsection \<open>provideDocumentLinks\<close>

text \<open>
  The callback given to \<open>forEach\<close> is an \<open>async\<close> function. A call of it runs until its
  first \<open>await\<close> and returns a promise there; \<open>forEach\<close> drops the promise and calls the
  callback for the next pattern; then \<open>return results\<close> runs. What follows an
  \<open>await\<close> runs only when the callback is resumed, after the code that called it has
  returned. A callback is therefore one of: completed (the loop ended), rejected (it
  threw outside the \<open>try\<close>), or suspended at \<open>await this.resolveLink(document, link)\<close>
  with the range it has computed, the link text, and the matches \<open>exec\<close> has yet to give.
\<close>

record pending_link =
  linkStart :: nat
  linkEnd :: nat
  link_text :: string

datatype callback = Completed | Threw js_error | Awaiting pending_link "RegExpExecArray list"

text \<open>
  From the head of the \<open>while\<close> loop to the first \<open>await\<close>. When the group is
  \<open>undefined\<close>, \<open>link.length\<close> throws a \<open>TypeError\<close>.
\<close>

fun callback_run ::
  "TextDocument \<Rightarrow> LinkPattern \<Rightarrow> DocumentLink list \<Rightarrow> RegExpExecArray list
     \<Rightarrow> DocumentLink list \<times> callback" where
  "callback_run document element results [] = (results, Completed)"
| "callback_run document element results (m # ms) =
     (case match_group m (linkIndex element) of
        None \<Rightarrow> (results, Threw TypeError)
      | Some link \<Rightarrow>
          (let preLen = indexOf (match0 m) link;
               offset = int (index m) + preLen;
               linkStart = positionAt document offset;
               linkEnd = positionAt document (offset + int (length link))
           in (results,
               Awaiting \<lparr>linkStart = linkStart, linkEnd = linkEnd, link_text = link\<rparr> ms)))"

text \<open>
  The resumption of a suspended callback: the outcome of \<open>resolveLink\<close> arrives, a link
  with a target is pushed, an exception is swallowed by the \<open>catch\<close>, and the loop goes on
  to its next \<open>await\<close>.
\<close>

definition callback_resume ::
  "host \<Rightarrow> TextDocument \<Rightarrow> LinkPattern \<Rightarrow> DocumentLink list \<Rightarrow> pending_link
     \<Rightarrow> RegExpExecArray list \<Rightarrow> DocumentLink list \<times> callback" where
  "callback_resume h document element results p rest =
     callback_run document element
       (case snd (resolveLink h document (link_text p)) of
          Inr (Some t) \<Rightarrow>
            results @ [\<lparr>range_start = linkStart p, range_end = linkEnd p, target = t\<rparr>]
        | Inr None \<Rightarrow> results
        | Inl e \<Rightarrow> results)
       rest"

text \<open>
  \<open>provideDocumentLinks\<close> up to its \<open>return results\<close>: the array as it is when the
  returned promise is fulfilled with it, and the callbacks \<open>forEach\<close> has started.
\<close>

definition forEach_step ::
  "host \<Rightarrow> TextDocument \<Rightarrow> DocumentLink list \<times> callback list \<Rightarrow> LinkPattern
     \<Rightarrow> DocumentLink list \<times> callback list" where
  "forEach_step h document st element =
     (let r = callback_run document element (fst st)
                (regexp_exec_all h (pattern element) (getText document))
      in (fst r, snd st @ [snd r]))"

definition provideDocumentLinks ::
  "host \<Rightarrow> TextDocument \<Rightarrow> DocumentLink list \<times> callback list" where
  "provideDocumentLinks h document = foldl (forEach_step h document) ([], []) linkPatterns"

section \<open>A host to run the model on\<close>

text \<open>
  A small host with locations of the \<open>file\<close> scheme on a POSIX file system, given by the
  entries that exist, the workspace folder and the mappings. Joining keeps the non-empty
  segments of both paths; parsing \<open>undefined\<close> parses the text \<open>undefined\<close>, as
  the conversion to a string gives it.
\<close>

fun split_path :: "string \<Rightarrow> string list" where
  "split_path [] = [[]]"
| "split_path (c # cs) =
     (if c = CHR ''/'' then [] # split_path cs
      else (case split_path cs of [] \<Rightarrow> [[c]] | x # xs \<Rightarrow> (c # x) # xs))"

definition posix_join :: "string \<Rightarrow> string \<Rightarrow> string" where
  "posix_join a b =
     (let segs = filter (\<lambda>s. s \<noteq> []) (split_path a @ split_path b)
      in if segs = [] then ''/'' else concat (map (\<lambda>s. CHR ''/'' # s) segs))"

definition file_uri :: "string \<Rightarrow> uri" where
  "file_uri p = \<lparr>scheme = ''file'', authority = [], path = p, query = [], fragment = []\<rparr>"

definition explicit_scheme :: "string \<Rightarrow> string" where
  "explicit_scheme s =
     (let sch = takeWhile (\<lambda>c. c \<notin> set '':/?#'') s
      in if sch \<noteq> [] \<and> length sch < length s \<and> s ! length sch = CHR '':'' then sch else [])"

definition sample_parse :: "string option \<Rightarrow> js_error + uri" where
  "sample_parse v =
     (let s = (case v of None \<Rightarrow> ''undefined'' | Some s \<Rightarrow> s) in
      if explicit_scheme s \<noteq> []
      then (let rest = drop (Suc (length (explicit_scheme s))) s in
            if prefix ''//'' rest
            then Inr \<lparr>scheme = explicit_scheme s,
                      authority = takeWhile (\<lambda>c. c \<noteq> CHR ''/'') (drop 2 rest),
                      path = dropWhile (\<lambda>c. c \<noteq> CHR ''/'') (drop 2 rest),
                      query = [], fragment = []\<rparr>
            else Inr \<lparr>scheme = explicit_scheme s, authority = [], path = rest,
                      query = [], fragment = []\<rparr>)
      else Inr (file_uri (if s \<noteq> [] \<and> hd s = CHR ''/'' then s else CHR ''/'' # s)))"

definition sample_joinPath :: "uri \<Rightarrow> string \<Rightarrow> js_error + uri" where
  "sample_joinPath u p =
     (if path u = [] then Inl UriError else Inr (u\<lparr>path := posix_join (path u) p\<rparr>))"

definition sample_host ::
  "(string \<times> FileType) list \<Rightarrow> uri option \<Rightarrow> CFMLMapping list
     \<Rightarrow> (string \<Rightarrow> string \<Rightarrow> RegExpExecArray list) \<Rightarrow> host" where
  "sample_host entries root mappings exec_all =
     \<lparr>uri_parse = sample_parse,
      uri_file = (\<lambda>p. Inr (file_uri p)),
      uri_joinPath = sample_joinPath,
      uri_fsPath = path,
      fs_stat = (\<lambda>u. case map_of entries (path u) of
                        None \<Rightarrow> Inl FileSystemError
                      | Some t \<Rightarrow> Inr t),
      getWorkspaceFolder = (\<lambda>u. root),
      getMappings = (\<lambda>u. mappings),
      regexp_other = (\<lambda>src input. Inl SyntaxError),
      regexp_exec_all = exec_all,
      isUri = (\<lambda>s. Inr (explicit_scheme s \<noteq> []))\<rparr>"

text \<open>
  Two instances. \<open>site_host\<close>: a workspace folder \<open>/site\<close>, a component directory
  \<open>foo/Bar\<close> present under \<open>/site/app\<close>, under \<open>/site\<close> and under the mapped
  directory \<open>/lib\<close>. \<open>bare_host\<close>: an empty file system, no workspace folder, no
  mapping.
\<close>

definition no_matches :: "string \<Rightarrow> string \<Rightarrow> RegExpExecArray list" where
  "no_matches src text = []"

definition site_host :: host where
  "site_host =
     sample_host
       [(''/site/app/foo/Bar'', FileType_Directory), (''/site/foo/Bar'', FileType_Directory),
        (''/lib/Bar'', FileType_Directory), (''/site/app'', FileType_Directory),
        (''/site'', FileType_Directory), (''/lib'', FileType_Directory)]
       (Some (file_uri ''/site''))
       [\<lparr>logicalPath = ''/foo'', directoryPath = ''/lib'', isPhysicalDirectoryPath = None\<rparr>,
        \<lparr>logicalPath = ''/'', directoryPath = ''/lib'', isPhysicalDirectoryPath = Some True\<rparr>]
       no_matches"

definition bare_host :: host where
  "bare_host = sample_host [] None [] no_matches"

text \<open>
  \<open>doc_host\<close>: the workspace folder \<open>/site\<close> with the document
  \<open>/site/app/index.cfm\<close> and, in the same directory, the component directory
  \<open>models/User\<close>.
\<close>

definition doc_host :: host where
  "doc_host =
     sample_host
       [(''/site/app/index.cfm'', FileType_File),
        (''/site/app/models/User'', FileType_Directory)]
       (Some (file_uri ''/site'')) [] no_matches"


text \<open>
  \<open>wide_host\<close>: three mappings, two of them for \<open>/foo\<close>. \<open>orphan_host\<close>: no
  workspace folder, and a mapping whose directory is relative to it. \<open>broken_host\<close>: a
  mapping whose logical path has an open parenthesis. \<open>img_host\<close> and
  \<open>img_document\<close>: the document \<^verbatim>\<open><img src="/a/b.png">\<close> of the workspace folder
  \<open>/site\<close>, where the file \<open>/site/a/b.png\<close> exists; \<open>img_exec\<close> is what \<open>exec\<close>
  finds in it.
\<close>

definition orphan_host :: host where
  "orphan_host =
     sample_host [] None
       [\<lparr>logicalPath = ''/foo'', directoryPath = ''lib'', isPhysicalDirectoryPath = Some False\<rparr>]
       no_matches"

definition broken_host :: host where
  "broken_host =
     sample_host [] None
       [\<lparr>logicalPath = ''/lib('', directoryPath = ''/lib'', isPhysicalDirectoryPath = None\<rparr>]
       no_matches"

definition img_text :: string where
  "img_text = ''<img src='' @ [CHR 0x22] @ ''/a/b.png'' @ [CHR 0x22] @ ''>''"

definition img_exec :: "string \<Rightarrow> string \<Rightarrow> RegExpExecArray list" where
  "img_exec src text =
     (if src = pattern (hd linkPatterns) \<and> text = img_text
      then [\<lparr>index = 5, match0 = ''src='' @ [CHR 0x22] @ ''/a/b.png'' @ [CHR 0x22],
             captures = [Some ''src'', Some [CHR 0x22], Some ''/a/b.png'']\<rparr>]
      else [])"

definition img_host :: host where
  "img_host =
     sample_host [(''/site/a/b.png'', FileType_File)] (Some (file_uri ''/site'')) [] img_exec"

definition img_document :: TextDocument where
  "img_document =
     \<lparr>doc_uri = file_uri ''/site/index.cfm'', fileName = ''/site/index.cfm'', getText = img_text\<rparr>"

section \<open>Notions the properties are stated with\<close>

text \<open>A name ends with a suffix, letters compared without case.\<close>

definition ci_suffix :: "string \<Rightarrow> string \<Rightarrow> bool" where
  "ci_suffix suf name =
     (length suf \<le> length name \<and>
      map (canonicalize True) (drop (length name - length suf) name)
        = map (canonicalize True) suf)"

text \<open>The directory that contains a location: its path without the last segment.\<close>

definition containing_directory :: "uri \<Rightarrow> uri" where
  "containing_directory u =
     u\<lparr>path := posix_join (concat (map (\<lambda>s. CHR ''/'' # s) (butlast (split_path (path u))))) []\<rparr>"




section \<open>Facts about the regular expressions\<close>

lemma rx_seq_Nil: "rx_seq ic s rs [] = []"
  by (induction rs) simp_all

lemma rx_seq_append: "rx_seq ic s (xs @ ys) is = rx_seq ic s ys (rx_seq ic s xs is)"
  by (induction xs arbitrary: "is") simp_all

text \<open>A run of pattern characters matches at \<open>i\<close> exactly the text that equals it there.\<close>

lemma rx_seq_chars:
  "i \<le> length s \<Longrightarrow> rx_seq ic s (map RChar lit) [i] =
     (if i + length lit \<le> length s \<and>
         map (canonicalize ic) (take (length lit) (drop i s)) = map (canonicalize ic) lit
      then [i + length lit] else [])"
proof (induction lit arbitrary: i)
  case Nil
  then show ?case by simp
next
  case (Cons c lit)
  show ?case
  proof (cases "i < length s")
    case True
    then have d: "drop i s = s ! i # drop (Suc i) s"
      by (simp add: Cons_nth_drop_Suc)
    from True have "Suc i \<le> length s" by simp
    note ih = Cons.IH [OF this]
    show ?thesis
      using True by (auto simp: ih d rx_seq_Nil)
  next
    case False
    then show ?thesis by (simp add: rx_seq_Nil)
  qed
qed

lemma rx_test_iff: "rx_test ic r s = (\<exists>i\<le>length s. rx_alts ic s r i \<noteq> [])"
proof -
  have "set [0..<Suc (length s)] = {i. i \<le> length s}" by auto
  then show ?thesis by (simp add: rx_test_def list_ex_iff)
qed

lemma rx_seq_lit_eol:
  assumes "i \<le> length s"
  shows "rx_seq ic s (map RChar lit @ [REol]) [i] =
     (if i + length lit = length s \<and>
         map (canonicalize ic) (drop i s) = map (canonicalize ic) lit
      then [length s] else [])"
proof (cases "i + length lit = length s")
  case True
  then have "take (length lit) (drop i s) = drop i s" by simp
  with True assms show ?thesis
    by (simp add: rx_seq_append rx_seq_chars)
next
  case False
  with assms show ?thesis
    by (simp add: rx_seq_append rx_seq_chars)
qed

lemma rx_test_lit_eol:
  "rx_test ic [map RChar lit @ [REol]] s =
     (length lit \<le> length s \<and>
      map (canonicalize ic) (drop (length s - length lit) s) = map (canonicalize ic) lit)"
proof -
  have "rx_test ic [map RChar lit @ [REol]] s \<longleftrightarrow>
        (\<exists>i. i + length lit = length s \<and>
           map (canonicalize ic) (drop i s) = map (canonicalize ic) lit)"
    by (simp add: rx_test_iff rx_seq_lit_eol cong: conj_cong)
  also have "\<dots> \<longleftrightarrow> (length lit \<le> length s \<and>
      map (canonicalize ic) (drop (length s - length lit) s) = map (canonicalize ic) lit)"
  proof
    assume "\<exists>i. i + length lit = length s \<and>
           map (canonicalize ic) (drop i s) = map (canonicalize ic) lit"
    then obtain i where i: "i + length lit = length s"
      "map (canonicalize ic) (drop i s) = map (canonicalize ic) lit" by blast
    then have "length s - length lit = i" by arith
    with i show "length lit \<le> length s \<and>
      map (canonicalize ic) (drop (length s - length lit) s) = map (canonicalize ic) lit"
      by auto
  next
    assume a: "length lit \<le> length s \<and>
      map (canonicalize ic) (drop (length s - length lit) s) = map (canonicalize ic) lit"
    then have "length s - length lit + length lit = length s" by simp
    with a show "\<exists>i. i + length lit = length s \<and>
           map (canonicalize ic) (drop i s) = map (canonicalize ic) lit"
      by (intro exI[of _ "length s - length lit"]) simp
  qed
  finally show ?thesis .
qed

text \<open>The pattern of \<open>filterComponents\<close> is what the parser makes of its source text.\<close>

lemma cfc_source: "rx_compile (backslash # ''.cfc$'') = Parsed cfc_pattern"
  by (simp add: rx_compile_def cfc_pattern_def rx_push_def syntax_char_def backslash_def)

lemma cfc_test: "rx_test True cfc_pattern s = ci_suffix ''.cfc'' s"
proof -
  have e: "cfc_pattern = [map RChar ''.cfc'' @ [REol]]"
    by (simp add: cfc_pattern_def)
  show ?thesis
    by (simp only: e rx_test_lit_eol ci_suffix_def)
qed

section \<open>The directory and component filters\<close>

lemma filterComponents_eq:
  "filterComponents L = filter (\<lambda>f. snd f = FileType_File \<and> ci_suffix ''.cfc'' (fst f)) L"
  by (simp add: filterComponents_def cfc_test)

lemma filter_examples:
  "filterComponents [(''Foo.CFC'', FileType_File), (''foo.cfc'', FileType_File),
                     (''foo.cfctxt'', FileType_File)]
     = [(''Foo.CFC'', FileType_File), (''foo.cfc'', FileType_File)]"
  unfolding filterComponents_eq by code_simp

text \<open>
  C10. For every listing \<open>L\<close>, \<open>filterDirectories\<close> keeps exactly the entries whose kind
  is directory, \<open>filterComponents\<close> keeps exactly the entries whose kind is file and whose
  name ends with \<open>.cfc\<close>, letters compared without case; both results are sublists of
  \<open>L\<close> in the order of \<open>L\<close>, and no entry is in both. \<open>Foo.CFC\<close> and \<open>foo.cfc\<close> are
  kept, \<open>foo.cfctxt\<close> is not.
\<close>

theorem filters_exact_ordered_disjoint:
  "filterDirectories L = filter (\<lambda>f. snd f = FileType_Directory) L
   \<and> filterComponents L = filter (\<lambda>f. snd f = FileType_File \<and> ci_suffix ''.cfc'' (fst f)) L
   \<and> subseq (filterDirectories L) L
   \<and> subseq (filterComponents L) L
   \<and> set (filterDirectories L) \<inter> set (filterComponents L) = {}
   \<and> filterComponents [(''Foo.CFC'', FileType_File), (''foo.cfc'', FileType_File),
                        (''foo.cfctxt'', FileType_File)]
       = [(''Foo.CFC'', FileType_File), (''foo.cfc'', FileType_File)]"
proof -
  have d: "filterDirectories L = filter (\<lambda>f. snd f = FileType_Directory) L"
    by (simp add: filterDirectories_def)
  have "set (filterDirectories L) \<inter> set (filterComponents L) = {}"
    unfolding d filterComponents_eq
    by (auto simp: FileType_Directory_def FileType_File_def)
  moreover have "subseq (filterDirectories L) L" "subseq (filterComponents L) L"
    unfolding d filterComponents_eq by simp_all
  ultimately show ?thesis
    using d filterComponents_eq filter_examples by blast
qed

section \<open>The file system probe\<close>

lemma bind_io_Inl [simp]: "bind_io (t, Inl e) f = (t, Inl e)"
  by (simp add: bind_io_def)

lemma bind_io_Inr [simp]: "bind_io (t, Inr x) f = (t @ fst (f x), snd (f x))"
  by (simp add: bind_io_def)

lemma fileExists_cases:
  "fileExists h p = ([], Inr False)
   \<or> (\<exists>u. uri_file h p = Inr u \<and> fileExists h p = ([Stat u], Inr False))
   \<or> (\<exists>u. uri_file h p = Inr u \<and> fileExists h p = ([Stat u], Inr True))"
  by (auto simp: fileExists_def split: sum.splits)

lemma fileExists_Inr: "\<exists>b. snd (fileExists h p) = Inr b"
  using fileExists_cases [of h p] by auto

lemma fileExists_True:
  "snd (fileExists h p) = Inr True
   \<Longrightarrow> \<exists>u. uri_file h p = Inr u \<and> fileExists h p = ([Stat u], Inr True)"
  by (auto simp: fileExists_def split: sum.splits)

text \<open>
  C9. For every path, \<open>fileExists\<close> returns a boolean and never raises: when \<open>Uri.file\<close>
  throws, and when the probe is rejected with any error, the result is \<open>false\<close>, the same
  value whatever the error; when the probe succeeds the result is \<open>true\<close>.
\<close>

theorem fileExists_never_raises:
  "(\<exists>b. snd (fileExists h p) = Inr b)
   \<and> (\<forall>e. uri_file h p = Inl e \<longrightarrow> snd (fileExists h p) = Inr False)
   \<and> (\<forall>u e. uri_file h p = Inr u \<and> fs_stat h u = Inl e \<longrightarrow> snd (fileExists h p) = Inr False)
   \<and> (\<forall>u t. uri_file h p = Inr u \<and> fs_stat h u = Inr t \<longrightarrow> snd (fileExists h p) = Inr True)"
  by (auto simp: fileExists_def split: sum.splits)

theorem fileExists_never_raises_witness:
  "snd (fileExists (sample_host [(''/site/a.cfc'', FileType_File)] None [] (\<lambda>src text. []))
         ''/site/missing.cfc'') = Inr False
   \<and> snd (fileExists (sample_host [(''/site/a.cfc'', FileType_File)] None [] (\<lambda>src text. []))
         ''/site/a.cfc'') = Inr True"
  using fileExists_never_raises
    [of "sample_host [(''/site/a.cfc'', FileType_File)] None [] (\<lambda>src text. [])"
        "''/site/missing.cfc''"]
    fileExists_never_raises
    [of "sample_host [(''/site/a.cfc'', FileType_File)] None [] (\<lambda>src text. [])"
        "''/site/a.cfc''"]
  by (simp add: sample_host_def file_uri_def)

section \<open>The dotted-path resolver\<close>


lemma snd_bind_io: "snd (bind_io m f) = (case snd m of Inl e \<Rightarrow> Inl e | Inr x \<Rightarrow> snd (f x))"
  by (simp add: bind_io_def split: sum.splits)

lemma fst_bind_io: "fst (bind_io m f) = (case snd m of Inl e \<Rightarrow> fst m | Inr x \<Rightarrow> fst m @ fst (f x))"
  by (simp add: bind_io_def split: sum.splits)

lemma snd_ret [simp]: "snd (ret x) = Inr x"
  by (simp add: ret_def)

lemma fst_ret [simp]: "fst (ret x) = []"
  by (simp add: ret_def)

lemma snd_lift [simp]: "snd (lift r) = r"
  by (simp add: lift_def)

lemma fst_lift [simp]: "fst (lift r) = []"
  by (simp add: lift_def)

lemma snd_raise [simp]: "snd (raise e) = Inl e"
  by (simp add: raise_def)

lemma fst_raise [simp]: "fst (raise e) = []"
  by (simp add: raise_def)

lemma mapped_loop_nonempty:
  "np \<noteq> [] \<Longrightarrow> snd (mapped_loop h np cms paths) = Inr ps
   \<Longrightarrow> ps = paths \<or> (\<exists>c. ps = paths @ [c])"
proof (induction cms arbitrary: paths)
  case Nil
  then show ?case by simp
next
  case (Cons c cms)
  obtain b where b: "snd (fileExists h c) = Inr b"
    using fileExists_Inr by blast
  show ?case
  proof (cases b)
    case True
    with b Cons.prems show ?thesis by auto
  next
    case False
    with b Cons.prems have "snd (mapped_loop h np cms paths) = Inr ps" by simp
    with Cons.IH Cons.prems(1) show ?thesis by blast
  qed
qed

lemma mapped_loop_empty:
  "snd (mapped_loop h [] cms paths)
     = Inr (paths @ filter (\<lambda>c. snd (fileExists h c) = Inr True) cms)"
proof (induction cms arbitrary: paths)
  case Nil
  then show ?case by simp
next
  case (Cons c cms)
  obtain b where b: "snd (fileExists h c) = Inr b"
    using fileExists_Inr by blast
  then show ?case
    by (cases b) (simp_all add: Cons.IH)
qed

lemma root_exists_Inr: "\<exists>b. snd (root_exists h rp) = Inr b"
  using fileExists_Inr by (auto simp: root_exists_def split: option.splits)

lemma snd_resolveDottedPaths:
  "snd (resolveDottedPaths h dotPath baseUri) =
     (case snd (resolveRelativePath h baseUri (dots_to_slashes dotPath)) of
        Inl e \<Rightarrow> Inl e
      | Inr localPath \<Rightarrow>
          (case snd (fileExists h localPath) of
             Inl e \<Rightarrow> Inl e
           | Inr localFound \<Rightarrow>
               if localFound \<and> dotPath \<noteq> [] then Inr [localPath]
               else
                 (case snd (resolveRootPath h baseUri (dots_to_slashes dotPath)) of
                    Inl e \<Rightarrow> Inl e
                  | Inr rootPath \<Rightarrow>
                      (case snd (root_exists h rootPath) of
                         Inl e \<Rightarrow> Inl e
                       | Inr rootFound \<Rightarrow>
                           if rootFound \<and> dotPath \<noteq> []
                           then Inr ((if localFound then [localPath] else []) @ [the rootPath])
                           else
                             (case snd (resolveCustomMappingPaths h baseUri (dots_to_slashes dotPath)) of
                                Inl e \<Rightarrow> Inl e
                              | Inr cms \<Rightarrow>
                                  snd (mapped_loop h (dots_to_slashes dotPath) cms
                                         ((if localFound then [localPath] else [])
                                            @ (if rootFound then [the rootPath] else []))))))))"
  by (simp add: resolveDottedPaths_def dots_to_slashes_def Let_def snd_bind_io
           split: sum.splits)

lemma mapped_loop_nonempty_length:
  "np \<noteq> [] \<Longrightarrow> snd (mapped_loop h np cms []) = Inr ps \<Longrightarrow> length ps \<le> Suc 0"
  using mapped_loop_nonempty [of np h cms "[]" ps] by auto

lemma nonempty_at_most_one:
  assumes "dotPath \<noteq> []" and "snd (resolveDottedPaths h dotPath baseUri) = Inr ps"
  shows "length ps \<le> 1"
proof -
  have ne: "dots_to_slashes dotPath \<noteq> []"
    using assms(1) by (simp add: dots_to_slashes_def)
  show ?thesis
    using assms
    by (auto simp: snd_resolveDottedPaths split: sum.splits if_splits
             dest: mapped_loop_nonempty_length [OF ne])
qed



lemma mapped_loop_none:
  "\<forall>c\<in>set cms. snd (fileExists h c) = Inr False \<Longrightarrow> snd (mapped_loop h np cms paths) = Inr paths"
  by (induction cms arbitrary: paths) simp_all

text \<open>
  C1. For every non-empty dotted path whose local candidate is computed and exists,
  \<open>resolveDottedPaths\<close> returns exactly the list of that one candidate, and the only
  call of the host it makes is the probe of that candidate: the workspace folder is not
  looked up and the mappings are not read. The result is the same whatever workspace
  folder and mappings the host has, also when a candidate under the root or under a
  mapping exists.
\<close>

theorem local_hit_short_circuits:
  assumes "dotPath \<noteq> []"
    and "snd (resolveRelativePath h baseUri (dots_to_slashes dotPath)) = Inr localPath"
    and "snd (fileExists h localPath) = Inr True"
  shows "\<exists>u. uri_file h localPath = Inr u
           \<and> resolveDottedPaths h dotPath baseUri = ([Stat u], Inr [localPath])
           \<and> resolveDottedPaths (h\<lparr>getWorkspaceFolder := root, getMappings := mappings\<rparr>)
                 dotPath baseUri = ([Stat u], Inr [localPath])"
proof -
  from assms(3) obtain u where u: "uri_file h localPath = Inr u"
    "fileExists h localPath = ([Stat u], Inr True)"
    using fileExists_True by blast
  from assms(2) have r: "resolveRelativePath h baseUri (dots_to_slashes dotPath) = ([], Inr localPath)"
    by (auto simp: resolveRelativePath_def lift_def ret_def bind_io_def split: sum.splits)
  let ?h = "h\<lparr>getWorkspaceFolder := root, getMappings := mappings\<rparr>"
  have r': "resolveRelativePath ?h baseUri (dots_to_slashes dotPath) = ([], Inr localPath)"
    using r by (simp add: resolveRelativePath_def)
  have "fileExists ?h localPath = fileExists h localPath"
    by (simp add: fileExists_def split: sum.splits)
  with u(2) have u': "fileExists ?h localPath = ([Stat u], Inr True)"
    by simp
  have "resolveDottedPaths h dotPath baseUri = ([Stat u], Inr [localPath])"
    using assms(1) r u(2)
    by (simp add: resolveDottedPaths_def dots_to_slashes_def Let_def ret_def)
  moreover have "resolveDottedPaths ?h dotPath baseUri = ([Stat u], Inr [localPath])"
    using assms(1) r' u'
    by (simp add: resolveDottedPaths_def dots_to_slashes_def Let_def ret_def)
  ultimately show ?thesis using u(1) by blast
qed

text \<open>
  At \<open>site_host\<close> the candidates of \<open>foo.Bar\<close> exist in all three tiers. From
  \<open>/site/app\<close> the local one is returned alone; from \<open>/other\<close>, where there is no
  local one, the root one is.
\<close>

lemma site_local:
  "snd (resolveRelativePath site_host (file_uri ''/site/app'') (dots_to_slashes ''foo.Bar''))
     = Inr ''/site/app/foo/Bar''"
  by code_simp

lemma site_local_exists: "snd (fileExists site_host ''/site/app/foo/Bar'') = Inr True"
  by code_simp

lemma site_root_also: "snd (resolveDottedPaths site_host ''foo.Bar'' (file_uri ''/other'')) = Inr [''/site/foo/Bar'']"
  by code_simp

theorem local_hit_short_circuits_witness:
  "resolveDottedPaths site_host ''foo.Bar'' (file_uri ''/site/app'')
     = ([Stat (file_uri ''/site/app/foo/Bar'')], Inr [''/site/app/foo/Bar''])
   \<and> snd (resolveDottedPaths site_host ''foo.Bar'' (file_uri ''/other''))
       = Inr [''/site/foo/Bar'']"
proof -
  have ne: "''foo.Bar'' \<noteq> []" by simp
  from local_hit_short_circuits [OF ne site_local site_local_exists]
  obtain u where u: "uri_file site_host ''/site/app/foo/Bar'' = Inr u"
    "resolveDottedPaths site_host ''foo.Bar'' (file_uri ''/site/app'')
       = ([Stat u], Inr [''/site/app/foo/Bar''])"
    by blast
  from u(1) have "u = file_uri ''/site/app/foo/Bar''"
    by (simp add: site_host_def sample_host_def)
  with u(2) site_root_also show ?thesis by simp
qed

text \<open>
  C6. For every non-empty dotted path, a list returned by \<open>resolveDottedPaths\<close> has at
  most one entry, so a list with more than one entry is returned only for the empty path.
  For the empty path an existing local candidate and an existing root candidate are
  recorded and the resolution goes on through the later tiers: the result is the existing
  local candidate, the existing root candidate and every existing mapping candidate, in
  this order. When no candidate of any tier exists, the result is the empty list, not an
  error.
\<close>

theorem at_most_one_unless_empty:
  "(dotPath \<noteq> [] \<longrightarrow> snd (resolveDottedPaths h dotPath baseUri) = Inr ps \<longrightarrow> length ps \<le> 1)
   \<and> (snd (resolveRelativePath h baseUri []) = Inr localPath \<longrightarrow>
        snd (resolveRootPath h baseUri []) = Inr rootPath \<longrightarrow>
        snd (resolveCustomMappingPaths h baseUri []) = Inr cms \<longrightarrow>
        snd (resolveDottedPaths h [] baseUri)
          = Inr ((if snd (fileExists h localPath) = Inr True then [localPath] else [])
                 @ (if snd (root_exists h rootPath) = Inr True then [the rootPath] else [])
                 @ filter (\<lambda>c. snd (fileExists h c) = Inr True) cms))
   \<and> (snd (resolveRelativePath h baseUri (dots_to_slashes dotPath)) = Inr localPath \<longrightarrow>
        snd (fileExists h localPath) = Inr False \<longrightarrow>
        snd (resolveRootPath h baseUri (dots_to_slashes dotPath)) = Inr rootPath \<longrightarrow>
        snd (root_exists h rootPath) = Inr False \<longrightarrow>
        snd (resolveCustomMappingPaths h baseUri (dots_to_slashes dotPath)) = Inr cms \<longrightarrow>
        (\<forall>c\<in>set cms. snd (fileExists h c) = Inr False) \<longrightarrow>
        snd (resolveDottedPaths h dotPath baseUri) = Inr [])"
proof (intro conjI impI)
  assume "dotPath \<noteq> []" "snd (resolveDottedPaths h dotPath baseUri) = Inr ps"
  then show "length ps \<le> 1" by (rule nonempty_at_most_one)
next
  assume a: "snd (resolveRelativePath h baseUri []) = Inr localPath"
    "snd (resolveRootPath h baseUri []) = Inr rootPath"
    "snd (resolveCustomMappingPaths h baseUri []) = Inr cms"
  obtain b1 where b1: "snd (fileExists h localPath) = Inr b1"
    using fileExists_Inr by blast
  obtain b2 where b2: "snd (root_exists h rootPath) = Inr b2"
    using root_exists_Inr by blast
  have e: "dots_to_slashes [] = []" by (simp add: dots_to_slashes_def)
  show "snd (resolveDottedPaths h [] baseUri)
          = Inr ((if snd (fileExists h localPath) = Inr True then [localPath] else [])
                 @ (if snd (root_exists h rootPath) = Inr True then [the rootPath] else [])
                 @ filter (\<lambda>c. snd (fileExists h c) = Inr True) cms)"
    using a b1 b2 by (simp add: snd_resolveDottedPaths e mapped_loop_empty)
next
  assume a: "snd (resolveRelativePath h baseUri (dots_to_slashes dotPath)) = Inr localPath"
    "snd (fileExists h localPath) = Inr False"
    "snd (resolveRootPath h baseUri (dots_to_slashes dotPath)) = Inr rootPath"
    "snd (root_exists h rootPath) = Inr False"
    "snd (resolveCustomMappingPaths h baseUri (dots_to_slashes dotPath)) = Inr cms"
    "\<forall>c\<in>set cms. snd (fileExists h c) = Inr False"
  from a(6) have "snd (mapped_loop h (dots_to_slashes dotPath) cms []) = Inr []"
    by (rule mapped_loop_none)
  with a(1-5) show "snd (resolveDottedPaths h dotPath baseUri) = Inr []"
    by (simp add: snd_resolveDottedPaths)
qed

lemma site_empty_path:
  "snd (resolveDottedPaths site_host [] (file_uri ''/site/app''))
     = Inr [''/site/app'', ''/site'', ''/lib'']"
  by code_simp

lemma bare_nothing:
  "snd (resolveDottedPaths bare_host ''models.User'' (file_uri ''/site/app'')) = Inr []"
  by code_simp

theorem at_most_one_unless_empty_witness:
  "length [''/site/foo/Bar''] \<le> (1::nat)
   \<and> snd (resolveDottedPaths site_host ''foo.Bar'' (file_uri ''/other'')) = Inr [''/site/foo/Bar'']
   \<and> snd (resolveDottedPaths site_host [] (file_uri ''/site/app''))
       = Inr [''/site/app'', ''/site'', ''/lib'']
   \<and> snd (resolveDottedPaths bare_host ''models.User'' (file_uri ''/site/app'')) = Inr []"
  using at_most_one_unless_empty
    [of "''foo.Bar''" site_host "file_uri ''/other''" "[''/site/foo/Bar'']"]
    site_root_also site_empty_path bare_nothing
  by simp

text \<open>
  On every host the candidate the local tier probes first is the normalized dotted path
  joined onto \<open>baseUri\<close> as it is given: \<open>resolveRelativePath\<close> takes no directory
  of it.
\<close>

lemma local_probe_joined_onto_base:
  assumes "uri_joinPath h baseUri (dots_to_slashes dotPath) = Inr j"
    and "uri_file h (uri_fsPath h j) = Inr f"
  shows "snd (resolveRelativePath h baseUri (dots_to_slashes dotPath)) = Inr (uri_fsPath h j)
         \<and> (\<exists>rest. fst (resolveDottedPaths h dotPath baseUri) = Stat f # rest)"
proof -
  have r: "resolveRelativePath h baseUri (dots_to_slashes dotPath) = ([], Inr (uri_fsPath h j))"
    using assms(1) by (simp add: resolveRelativePath_def lift_def ret_def)
  from assms(2) fileExists_cases [of h "uri_fsPath h j"]
  obtain b where b: "fileExists h (uri_fsPath h j) = ([Stat f], Inr b)"
    by (auto simp: fileExists_def split: sum.splits)
  have "\<exists>rest. fst (resolveDottedPaths h dotPath baseUri) = Stat f # rest"
    using r b
    by (simp add: resolveDottedPaths_def dots_to_slashes_def Let_def fst_bind_io
             split: sum.splits)
  with r show ?thesis by simp
qed

text \<open>
  C5. The code at the base location \<open>/site/app/index.cfm\<close>, a document, with the
  component directory \<open>/site/app/models/User\<close> beside it. The local tier is commented
  \<^verbatim>\<open>// relative to local directory\<close>, and the candidate in the directory that contains
  the document, \<open>/site/app/models/User\<close>, exists. The candidate the code probes is
  \<open>/site/app/index.cfm/models/User\<close>, under the document itself: the local tier
  misses, the root tier misses, and the result is empty. Only when the directory
  \<open>/site/app\<close> is given as the base is the component found.
\<close>

theorem local_tier_probes_under_the_document:
  "resolveDottedPaths doc_host ''models.User'' (file_uri ''/site/app/index.cfm'')
     = ([Stat (file_uri ''/site/app/index.cfm/models/User''),
         RootLookup (file_uri ''/site/app/index.cfm''),
         Stat (file_uri ''/site/models/User''),
         ConfigRead (file_uri ''/site/app/index.cfm'')],
        Inr [])
   \<and> uri_joinPath doc_host (containing_directory (file_uri ''/site/app/index.cfm''))
         (dots_to_slashes ''models.User'')
       = Inr (file_uri ''/site/app/models/User'')
   \<and> snd (fileExists doc_host ''/site/app/models/User'') = Inr True
   \<and> snd (resolveDottedPaths doc_host ''models.User'' (file_uri ''/site/app''))
       = Inr [''/site/app/models/User'']"
  by code_simp

section \<open>The mapping resolver\<close>

lemma canonicalize_False [simp]: "canonicalize False c = c"
  by (simp add: canonicalize_def)

lemma map_canonicalize_False [simp]: "map (canonicalize False) s = s"
  by (induction s) simp_all























text \<open>
  With no workspace folder, a mapping whose directory is relative to it is not skipped on
  any host: \<open>Uri.parse\<close> is called with \<open>undefined\<close>, and the mapped path is what
  the host makes of it.
\<close>

lemma unresolvable_mapping_parses_undefined:
  assumes "getWorkspaceFolder h baseUri = None" and "isPhysicalDirectoryPath m = Some False"
  shows "snd (mapping_mappedPath h baseUri m p) =
           (case uri_parse h None of
              Inl e \<Rightarrow> Inl e
            | Inr u \<Rightarrow>
                (case uri_joinPath h u (drop (length (slicedLogicalPath m)) p) of
                   Inl e \<Rightarrow> Inl e
                 | Inr v \<Rightarrow> Inr (uri_fsPath h v)))"
  using assms
  by (simp add: mapping_mappedPath_def mapping_directoryPath_def resolveRootPath_def
        snd_bind_io split: sum.splits)

text \<open>
  C3. The code at two inputs. With no workspace folder and a mapping whose directory is
  relative to it, \<open>resolveRootPath\<close> returns \<open>undefined\<close>, which is passed to
  \<open>Uri.parse\<close>: the mapping is not skipped, its candidate \<open>/undefined/bar\<close> is
  returned by \<open>resolveCustomMappingPaths\<close> and probed by \<open>resolveDottedPaths\<close>. With a
  mapping whose logical path is \<open>/lib(\<close>, the \<open>RegExp\<close> constructor throws and
  \<open>resolveDottedPaths\<close> raises \<open>SyntaxError\<close>.
\<close>

theorem unresolvable_mapping_not_skipped:
  "snd (resolveCustomMappingPaths orphan_host (file_uri ''/elsewhere'') ''foo/bar'')
     = Inr [''/undefined/bar'']
   \<and> resolveDottedPaths orphan_host ''foo.bar'' (file_uri ''/elsewhere'')
       = ([Stat (file_uri ''/elsewhere/foo/bar''), RootLookup (file_uri ''/elsewhere''),
           ConfigRead (file_uri ''/elsewhere''), RootLookup (file_uri ''/elsewhere''),
           Stat (file_uri ''/undefined/bar'')],
          Inr [])
   \<and> snd (resolveDottedPaths broken_host ''x'' (file_uri ''/elsewhere'')) = Inl SyntaxError"
  by code_simp

section \<open>The link resolver and the link provider\<close>

text \<open>
  C8. For every link text that does not begin with \<open>#\<close>, that \<open>isUri\<close> accepts and that
  \<open>Uri.parse\<close> parses into a reference with a scheme, \<open>resolveLink\<close> returns that
  reference as it is, without any call of the file system or the workspace; the result is
  the same whatever the file system holds.
\<close>

theorem scheme_link_verbatim:
  assumes "\<not> prefix ''#'' link"
    and "isUri h link = Inr True"
    and "uri_parse h (Some link) = Inr u"
    and "scheme u \<noteq> []"
  shows "resolveLink h document link = ([], Inr (Some u))
         \<and> resolveLink (h\<lparr>fs_stat := f\<rparr>) document link = ([], Inr (Some u))"
  using assms by (simp add: resolveLink_def lift_def ret_def)

theorem scheme_link_verbatim_witness:
  "resolveLink bare_host img_document ''https://example.com/x''
     = ([], Inr (Some \<lparr>scheme = ''https'', authority = ''example.com'', path = ''/x'',
                       query = [], fragment = []\<rparr>))
   \<and> snd (fileExists bare_host ''/x'') = Inr False"
proof -
  have 1: "\<not> prefix ''#'' ''https://example.com/x''" by simp
  have 2: "isUri bare_host ''https://example.com/x'' = Inr True" by code_simp
  have 3: "uri_parse bare_host (Some ''https://example.com/x'')
             = Inr \<lparr>scheme = ''https'', authority = ''example.com'', path = ''/x'',
                       query = [], fragment = []\<rparr>"
    by code_simp
  have 4: "scheme \<lparr>scheme = ''https'', authority = ''example.com'', path = ''/x'',
                       query = [], fragment = []\<rparr> \<noteq> []"
    by simp
  have 5: "snd (fileExists bare_host ''/x'') = Inr False" by code_simp
  from scheme_link_verbatim [OF 1 2 3 4] 5 show ?thesis by simp
qed

text \<open>
  The range a callback computes for a match. When \<open>match[0]\<close> is the text at
  \<open>match.index\<close> and the link text occurs in it, first at position \<open>k\<close>, the
  callback is suspended with the range that starts at \<open>match.index + k\<close> and has the
  length of the link text, and the text at this range is the link text.
\<close>

lemma find_Some_member: "List.find P xs = Some x \<Longrightarrow> P x \<and> x \<in> set xs"
  by (induction xs) (auto split: if_splits)

lemma indexOf_found:
  assumes "indexOf s sub = int k"
  shows "k \<le> length s \<and> take (length sub) (drop k s) = sub"
proof -
  from assms obtain i where
    f: "List.find (\<lambda>i. take (length sub) (drop i s) = sub) [0..<Suc (length s)] = Some i"
    and i: "int i = int k"
    by (auto simp: indexOf_def split: option.splits)
  from find_Some_member [OF f]
  have "i \<in> set [0..<Suc (length s)]" "take (length sub) (drop i s) = sub"
    by simp_all
  then have "i < Suc (length s)" "take (length sub) (drop i s) = sub"
    by (simp_all del: upt_Suc)
  with i show ?thesis by simp
qed

lemma callback_run_range:
  assumes g: "match_group m (linkIndex element) = Some link"
    and t: "index m + length (match0 m) \<le> length (getText document)"
           "take (length (match0 m)) (drop (index m) (getText document)) = match0 m"
    and k: "indexOf (match0 m) link = int k"
  shows "callback_run document element results (m # ms)
           = (results,
              Awaiting \<lparr>linkStart = index m + k, linkEnd = index m + k + length link,
                         link_text = link\<rparr> ms)
         \<and> take (length link) (drop (index m + k) (getText document)) = link"
proof -
  from indexOf_found [OF k] have k1: "k \<le> length (match0 m)"
    and k2: "take (length link) (drop k (match0 m)) = link" by simp_all
  from k2 have "length (take (length link) (drop k (match0 m))) = length link"
    by simp
  then have "length link \<le> length (match0 m) - k"
    by simp
  with k1 t(1) have b: "index m + k + length link \<le> length (getText document)" by arith
  have "take (length link) (drop (index m + k) (getText document))
          = take (length link) (drop k (drop (index m) (getText document)))"
    by (simp add: add.commute)
  also have "\<dots> = take (length link) (drop k (take (length (match0 m)) (drop (index m) (getText document))))"
    using \<open>length link \<le> length (match0 m) - k\<close> by (simp add: drop_take)
  also have "\<dots> = link" using k2 t(2) by simp
  finally have s: "take (length link) (drop (index m + k) (getText document)) = link" .
  have "callback_run document element results (m # ms)
           = (results,
              Awaiting \<lparr>linkStart = index m + k, linkEnd = index m + k + length link,
                         link_text = link\<rparr> ms)"
  proof -
    have n1: "nat (int (index m) + int k) = index m + k"
      by (simp add: nat_add_distrib)
    have n2: "nat (int (index m) + int k + int (length link)) = index m + k + length link"
      by (simp add: nat_add_distrib)
    show ?thesis
      using g k b by (simp add: Let_def positionAt_def min_def n1 n2)
  qed
  with s show ?thesis by simp
qed

text \<open>A callback pushes nothing before its first \<open>await\<close>.\<close>

lemma callback_run_results: "fst (callback_run document element results ms) = results"
  by (cases ms) (simp_all add: Let_def split: option.splits)

lemma forEach_step_results: "fst (forEach_step h document st element) = fst st"
  by (simp add: forEach_step_def Let_def callback_run_results)

lemma foldl_forEach_results:
  "fst (foldl (forEach_step h document) st elements) = fst st"
  by (induction elements arbitrary: st) (simp_all add: forEach_step_results)

text \<open>
  C2. The code at the document \<^verbatim>\<open><img src="/a/b.png">\<close>. For every document the array
  is empty when \<open>provideDocumentLinks\<close> returns it. At this document the callback of the
  first pattern is left suspended with the range from 10 to 18, which is where the link
  text is; the link resolves to \<open>/site/a/b.png\<close>; the link is pushed when the callback
  is resumed.
\<close>

theorem provideDocumentLinks_returns_before_push:
  "fst (provideDocumentLinks h document) = []
   \<and> provideDocumentLinks img_host img_document
       = ([], [Awaiting \<lparr>linkStart = 10, linkEnd = 18, link_text = ''/a/b.png''\<rparr> [], Completed])
   \<and> resolveLink img_host img_document ''/a/b.png''
       = ([RootLookup (file_uri ''/site/index.cfm''), Stat (file_uri ''/site/a/b.png''),
           Stat (file_uri ''/site/a/b.png'')],
          Inr (Some (file_uri ''/site/a/b.png'')))
   \<and> callback_resume img_host img_document (hd linkPatterns) []
         \<lparr>linkStart = 10, linkEnd = 18, link_text = ''/a/b.png''\<rparr> []
       = ([\<lparr>range_start = 10, range_end = 18, target = file_uri ''/site/a/b.png''\<rparr>], Completed)
   \<and> take (18 - 10) (drop 10 (getText img_document)) = ''/a/b.png''"
proof -
  have "fst (provideDocumentLinks h document) = []"
    by (simp add: provideDocumentLinks_def foldl_forEach_results)
  moreover have "provideDocumentLinks img_host img_document
       = ([], [Awaiting \<lparr>linkStart = 10, linkEnd = 18, link_text = ''/a/b.png''\<rparr> [], Completed])"
    by code_simp
  moreover have "resolveLink img_host img_document ''/a/b.png''
       = ([RootLookup (file_uri ''/site/index.cfm''), Stat (file_uri ''/site/a/b.png''),
           Stat (file_uri ''/site/a/b.png'')],
          Inr (Some (file_uri ''/site/a/b.png'')))"
    by code_simp
  moreover have "callback_resume img_host img_document (hd linkPatterns) []
         \<lparr>linkStart = 10, linkEnd = 18, link_text = ''/a/b.png''\<rparr> []
       = ([\<lparr>range_start = 10, range_end = 18, target = file_uri ''/site/a/b.png''\<rparr>], Completed)"
    by code_simp
  moreover have "take (18 - 10) (drop 10 (getText img_document)) = ''/a/b.png''"
    by code_simp
  ultimately show ?thesis by blast
qed

end
